theory Spec2Isabelle
  imports Complex_Main
begin

section \<open>Conventions of the embedding\<close>

text \<open>
  The four scripts under \<open>src/scripts\<close> are embedded function by function.

  \<^item> Python \<open>int\<close> is \<^typ>\<open>int\<close>.
  \<^item> Python's true division \<open>/\<close> produces a float. The embedding keeps the exact quotient
    as a \<^typ>\<open>rat\<close>: rounding to binary64 is not modelled, division by zero is (it raises
    \<open>ZeroDivisionError\<close>). A Python number that may be the int \<open>0\<close> or a float (for
    example \<open>heap_ratio\<close>) is a \<^typ>\<open>rat\<close>, since Python compares and divides the two
    numerically.
  \<^item> Text is ASCII: a \<^typ>\<open>string\<close> is a list of 8-bit characters.
  \<^item> A dict that the code builds itself with fixed keys is a \<^theory_text>\<open>record\<close>; a dict that
    comes out of \<open>json.load\<close> is an association list with distinct keys, read with
    \<open>getitem\<close>, which raises \<open>KeyError\<close> as \<open>d[k]\<close> does.
  \<^item> An exception is a value \<open>Inl e\<close> of the type \<open>error + 'a\<close>; \<open>None\<close> is \<open>None\<close>.
  \<^item> A file is what the code reads from it: the list of its lines (each with its line
    terminator) for a text file, the parsed JSON value for a JSON file.
\<close>

datatype error = KeyError string | ValueError | ZeroDivisionError

definition bind :: "error + 'a \<Rightarrow> ('a \<Rightarrow> error + 'b) \<Rightarrow> error + 'b" where
  "bind m f = (case m of Inl e \<Rightarrow> Inl e | Inr x \<Rightarrow> f x)"

definition getitem :: "(string \<times> 'v) list \<Rightarrow> string \<Rightarrow> error + 'v" where
  "getitem d k = (case map_of d k of None \<Rightarrow> Inl (KeyError k) | Some v \<Rightarrow> Inr v)"

definition truediv :: "rat \<Rightarrow> rat \<Rightarrow> error + rat" where
  "truediv a b = (if b = 0 then Inl ZeroDivisionError else Inr (a / b))"

subsection \<open>Built-ins on sequences\<close>

text \<open>
  \<open>min(xs)\<close> and \<open>max(xs)\<close> scan from the first element and replace the candidate only on
  a strict improvement, so the first of several equal extrema is returned; on an empty
  sequence they raise \<open>ValueError\<close>. The \<open>key=\<close> forms compare the keys.
\<close>

fun py_min :: "int list \<Rightarrow> error + int" where
  "py_min [] = Inl ValueError"
| "py_min (x # xs) = Inr (fold (\<lambda>y b. if y < b then y else b) xs x)"

fun py_max :: "int list \<Rightarrow> error + int" where
  "py_max [] = Inl ValueError"
| "py_max (x # xs) = Inr (fold (\<lambda>y b. if y > b then y else b) xs x)"

fun py_min_key :: "('a \<Rightarrow> rat) \<Rightarrow> 'a list \<Rightarrow> error + 'a" where
  "py_min_key key [] = Inl ValueError"
| "py_min_key key (x # xs) = Inr (fold (\<lambda>y b. if key y < key b then y else b) xs x)"

fun py_max_key :: "('a \<Rightarrow> rat) \<Rightarrow> 'a list \<Rightarrow> error + 'a" where
  "py_max_key key [] = Inl ValueError"
| "py_max_key key (x # xs) = Inr (fold (\<lambda>y b. if key y > key b then y else b) xs x)"

subsection \<open>Built-ins on text\<close>

text \<open>
  \<open>str.strip()\<close> removes, at both ends, the characters for which \<open>str.isspace\<close> holds:
  in ASCII the codes 9 to 13 and 28 to 32. \<open>int(s)\<close> skips only the codes 9 to 13 and 32
  around the literal.
\<close>

definition is_space :: "char \<Rightarrow> bool" where
  "is_space c = (let n = (of_char c :: nat) in (9 \<le> n \<and> n \<le> 13) \<or> (28 \<le> n \<and> n \<le> 32))"

definition is_int_space :: "char \<Rightarrow> bool" where
  "is_int_space c = (let n = (of_char c :: nat) in (9 \<le> n \<and> n \<le> 13) \<or> n = 32)"

definition strip :: "string \<Rightarrow> string" where
  "strip s = rev (dropWhile is_space (rev (dropWhile is_space s)))"

definition startswith :: "string \<Rightarrow> string \<Rightarrow> bool" where
  "startswith s p = (take (length p) s = p)"

text \<open>\<open>s.split(',')\<close>: the fields between the commas, at least one, empty ones kept.\<close>

fun split_comma :: "string \<Rightarrow> string list" where
  "split_comma [] = [[]]"
| "split_comma (c # cs) =
     (if c = CHR '','' then [] # split_comma cs
      else (case split_comma cs of
              [] \<Rightarrow> [[c]]
            | p # ps \<Rightarrow> (c # p) # ps))"

text \<open>
  \<open>int(s)\<close> in base 10: optional surrounding white space, an optional sign, then decimal
  digits, where single underscores may stand between two digits. Anything else raises
  \<open>ValueError\<close>, which is \<open>None\<close> here since both callers catch exactly that exception.
  The bound that recent interpreters put on the number of digits (4300 by default, above
  which \<open>int\<close> raises \<open>ValueError\<close> too) is not modelled.
\<close>

definition is_digit :: "char \<Rightarrow> bool" where
  "is_digit c = (let n = (of_char c :: nat) in 48 \<le> n \<and> n \<le> 57)"

definition digit_val :: "char \<Rightarrow> int" where
  "digit_val c = int (of_char c) - 48"

fun int_digits :: "int \<Rightarrow> string \<Rightarrow> int option" where
  "int_digits acc [] = Some acc"
| "int_digits acc (c # cs) =
     (if is_digit c then int_digits (10 * acc + digit_val c) cs
      else if c = CHR ''_'' then
        (case cs of
           [] \<Rightarrow> None
         | d # _ \<Rightarrow> if is_digit d then int_digits acc cs else None)
      else None)"

definition int_body :: "string \<Rightarrow> int option" where
  "int_body s = (case s of
                   [] \<Rightarrow> None
                 | c # _ \<Rightarrow> if is_digit c then int_digits 0 s else None)"

definition py_int :: "string \<Rightarrow> int option" where
  "py_int s =
     (let t = rev (dropWhile is_int_space (rev (dropWhile is_int_space s)))
      in case t of
           [] \<Rightarrow> None
         | c # cs \<Rightarrow>
             if c = CHR ''-'' then map_option uminus (int_body cs)
             else if c = CHR ''+'' then int_body cs
             else int_body t)"

section \<open>The external adapter: \<open>analyze-external-rss.py\<close> and \<open>compare-results.py\<close>\<close>

text \<open>
  \<open>analyze_rss\<close> (lines 8 to 21) and \<open>load_external_rss\<close> (lines 19 to 31) hold the same
  loop over the lines of the file; \<open>rss_loop\<close> is that loop, with the list
  \<open>rss_values\<close> as its accumulator.
\<close>

fun rss_loop :: "string list \<Rightarrow> int list \<Rightarrow> int list" where
  "rss_loop [] rss_values = rss_values"
| "rss_loop (l # ls) rss_values =
     (let line = strip l in
      if line = [] \<or> startswith line ''timestamp'' then rss_loop ls rss_values
      else
        (let parts = split_comma line in
         if length parts \<ge> 3 then
           (case py_int (parts ! 2) of
              Some rss_kb \<Rightarrow> rss_loop ls (rss_values @ [rss_kb])
            | None \<Rightarrow> rss_loop ls rss_values)
         else rss_loop ls rss_values))"

record rss_result =
  sample_count :: nat
  min_rss_kb :: int
  max_rss_kb :: int
  avg_rss_kb :: rat
  min_rss_mb :: rat
  max_rss_mb :: rat
  avg_rss_mb :: rat

text \<open>
  \<open>analyze_rss\<close> of a file that exists. After the guard \<open>if not rss_values\<close> the list is
  not empty, so \<open>min\<close>, \<open>max\<close> and the division by \<open>len\<close> cannot raise; the model keeps
  the three calls as they are and maps a raise (never taken) to \<open>None\<close>.
\<close>

definition analyze_rss :: "string list \<Rightarrow> rss_result option" where
  "analyze_rss f =
     (let rss_values = rss_loop f [] in
      if rss_values = [] then None
      else
        (case (py_min rss_values, py_max rss_values,
               truediv (of_int (sum_list rss_values)) (of_nat (length rss_values))) of
           (Inr min_rss, Inr max_rss, Inr avg_rss) \<Rightarrow>
             Some \<lparr>sample_count = length rss_values,
                   min_rss_kb = min_rss,
                   max_rss_kb = max_rss,
                   avg_rss_kb = avg_rss,
                   min_rss_mb = of_int min_rss / 1024,
                   max_rss_mb = of_int max_rss / 1024,
                   avg_rss_mb = avg_rss / 1024\<rparr>
         | _ \<Rightarrow> None))"

record ext_rss =
  ext_min :: rat
  ext_max :: rat
  ext_avg :: rat

text \<open>
  \<open>load_external_rss\<close>: the argument is \<open>None\<close> when \<open>os.path.exists(filename)\<close> is false.
  The keys \<open>'min'\<close>, \<open>'max'\<close>, \<open>'avg'\<close> of the returned dict are the fields \<open>ext_min\<close>,
  \<open>ext_max\<close>, \<open>ext_avg\<close>.
\<close>

definition load_external_rss :: "string list option \<Rightarrow> ext_rss option" where
  "load_external_rss contents =
     (case contents of
        None \<Rightarrow> None
      | Some f \<Rightarrow>
          (let rss_values = rss_loop f [] in
           if rss_values = [] then None
           else
             (case (py_min rss_values, py_max rss_values,
                    truediv (of_int (sum_list rss_values)) (of_nat (length rss_values))) of
                (Inr mn, Inr mx, Inr av) \<Rightarrow>
                  Some \<lparr>ext_min = of_int mn / 1024,
                        ext_max = of_int mx / 1024,
                        ext_avg = av / 1024\<rparr>
              | _ \<Rightarrow> None)))"

section \<open>The timeline analysis: \<open>analyze_results.py\<close>\<close>

text \<open>
  A sample is one object of the JSON list that \<open>json.load\<close> returns, with integer values
  (section 3 of the specification: every field of a RawSample is an integer).
\<close>

type_synonym sample = "(string \<times> int) list"

text \<open>The generator \<open>(s[k] for s in stats)\<close>, consumed to its end: the first missing key raises.\<close>

fun getitems :: "string \<Rightarrow> sample list \<Rightarrow> error + int list" where
  "getitems k [] = Inr []"
| "getitems k (s # ss) = bind (getitem s k) (\<lambda>v. bind (getitems k ss) (\<lambda>vs. Inr (v # vs)))"

text \<open>\<open>os.path.basename\<close>: what follows the last slash.\<close>

definition basename :: "string \<Rightarrow> string" where
  "basename p = rev (takeWhile (\<lambda>c. c \<noteq> CHR ''/'') (rev p))"

record result =
  file_name :: string
  message_count :: int
  message_bytes :: int
  batch_count :: int
  max_heap :: int
  max_rss :: int
  final_heap :: int
  final_rss :: int
  heap_ratio :: rat
  rss_ratio :: rat
  num_gc :: int
  gc_pause_ms :: rat

text \<open>
  \<open>analyze_file\<close>, with the parsed content of the file as argument. The lookups are in the
  order in which the source evaluates them; \<open>stats[-1]\<close> is \<open>last stats\<close> after the guard
  \<open>if not stats\<close>. The key \<open>'file'\<close> of the returned dict is the field \<open>file_name\<close>.
\<close>

definition analyze_file :: "string \<Rightarrow> sample list \<Rightarrow> error + result option" where
  "analyze_file filepath stats =
     (if stats = [] then Inr None
      else
        bind (getitems ''heap_alloc'' stats) (\<lambda>heaps.
        bind (py_max heaps) (\<lambda>max_heap'.
        bind (getitems ''rss'' stats) (\<lambda>rsss.
        bind (py_max rsss) (\<lambda>max_rss'.
        let final = last stats in
        bind (getitem final ''message_bytes'') (\<lambda>message_bytes'.
        bind (getitem final ''message_count'') (\<lambda>message_count'.
        bind (getitem final ''batch_count'') (\<lambda>batch_count'.
        bind (if message_bytes' > 0
              then truediv (of_int max_heap') (of_int message_bytes') else Inr 0) (\<lambda>heap_ratio'.
        bind (if message_bytes' > 0
              then truediv (of_int max_rss') (of_int message_bytes') else Inr 0) (\<lambda>rss_ratio'.
        bind (getitem final ''heap_alloc'') (\<lambda>final_heap'.
        bind (getitem final ''rss'') (\<lambda>final_rss'.
        bind (getitem final ''num_gc'') (\<lambda>num_gc'.
        bind (getitem final ''pause_total_ns'') (\<lambda>pause_total_ns.
        bind (truediv (of_int pause_total_ns) 1000000) (\<lambda>gc_pause_ms'.
        Inr (Some \<lparr>file_name = basename filepath,
                    message_count = message_count',
                    message_bytes = message_bytes',
                    batch_count = batch_count',
                    max_heap = max_heap',
                    max_rss = max_rss',
                    final_heap = final_heap',
                    final_rss = final_rss',
                    heap_ratio = heap_ratio',
                    rss_ratio = rss_ratio',
                    num_gc = num_gc',
                    gc_pause_ms = gc_pause_ms'\<rparr>))))))))))))))))"

text \<open>
  The loop of \<open>main\<close> (lines 67 to 74) over the stat files, each given with its parsed
  content: any exception of \<open>analyze_file\<close> is caught and the file is left out, and so is a
  file for which it returns \<open>None\<close>.
\<close>

fun main_loop :: "(string \<times> sample list) list \<Rightarrow> result list \<Rightarrow> result list" where
  "main_loop [] results = results"
| "main_loop ((f, stats) # fs) results =
     (case analyze_file f stats of
        Inl e \<Rightarrow> main_loop fs results
      | Inr None \<Rightarrow> main_loop fs results
      | Inr (Some r) \<Rightarrow> main_loop fs (results @ [r]))"

text \<open>
  The ranking of \<open>main\<close> (lines 107 to 113): the best and the worst result by
  \<open>heap_ratio\<close> and the quotient that the last \<open>print\<close> formats. The division is not
  guarded in the source, so it raises when the best ratio is zero. With fewer than two
  results nothing is ranked.
\<close>

definition main_ranking :: "result list \<Rightarrow> error + (result \<times> result \<times> rat) option" where
  "main_ranking results =
     (if length results > 1 then
        bind (py_min_key heap_ratio results) (\<lambda>best_heap.
        bind (py_max_key heap_ratio results) (\<lambda>worst_heap.
        bind (truediv (heap_ratio worst_heap) (heap_ratio best_heap)) (\<lambda>improvement.
        Inr (Some (best_heap, worst_heap, improvement)))))
      else Inr None)"

section \<open>The savings analysis: \<open>compare-results.py\<close> and \<open>compare-queue.py\<close>\<close>





section \<open>Definitions that follow the words of the specification\<close>

text \<open>
  Section 3 of the specification describes a valid line of the external artifact: after
  trailing white space is trimmed, the line is not empty, its first field is not literally
  \<open>timestamp\<close>, it has at least three comma-separated fields and the third one parses as an
  integer. \<open>spec_valid_line\<close> is that description, to be compared with \<open>rss_loop\<close>.
\<close>

definition rstrip :: "string \<Rightarrow> string" where
  "rstrip s = rev (dropWhile is_space (rev s))"

definition spec_valid_line :: "string \<Rightarrow> bool" where
  "spec_valid_line l =
     (let t = rstrip l; fields = split_comma t
      in t \<noteq> [] \<and> hd fields \<noteq> ''timestamp'' \<and> length fields \<ge> 3
         \<and> py_int (fields ! 2) \<noteq> None)"

text \<open>
  Sections 3 and 6 of the specification describe a RawSample: a JSON object with the
  seven integer fields below. \<open>raw_sample\<close> builds the object that \<open>json.load\<close> returns
  for one.
\<close>

definition raw_sample :: "int \<Rightarrow> int \<Rightarrow> int \<Rightarrow> int \<Rightarrow> int \<Rightarrow> int \<Rightarrow> int \<Rightarrow> sample" where
  "raw_sample heap rss mbytes mcount bcount gc pause =
     [(''heap_alloc'', heap), (''rss'', rss), (''message_bytes'', mbytes),
      (''message_count'', mcount), (''batch_count'', bcount), (''num_gc'', gc),
      (''pause_total_ns'', pause)]"

text \<open>
  Section 8 of the specification ranks named summaries given by their ratio only, as in
  \<open>{A: ratio=2.0, B: ratio=0.5}\<close>. \<open>named_ratio\<close> is such a summary: a result of
  \<open>analyze_file\<close> with the given file name and \<open>heap_ratio\<close>, every other field zero.
\<close>

definition named_ratio :: "string \<Rightarrow> rat \<Rightarrow> result" where
  "named_ratio name ratio =
     \<lparr>file_name = name, message_count = 0, message_bytes = 0, batch_count = 0,
      max_heap = 0, max_rss = 0, final_heap = 0, final_rss = 0,
      heap_ratio = ratio, rss_ratio = 0, num_gc = 0, gc_pause_ms = 0\<rparr>"


section \<open>Facts about the built-ins\<close>

lemma fold_min_eq: "fold (\<lambda>y b. if y < b then y else b) xs (x::int) = Min (set (x # xs))"
proof -
  have "(\<lambda>y b. if y < b then y else b) = (min :: int \<Rightarrow> int \<Rightarrow> int)"
    by (intro ext) (simp add: min_def)
  then show ?thesis by (simp only: Min.set_eq_fold)
qed

lemma fold_max_eq: "fold (\<lambda>y b. if y > b then y else b) xs (x::int) = Max (set (x # xs))"
proof -
  have "(\<lambda>y b. if y > b then y else b) = (max :: int \<Rightarrow> int \<Rightarrow> int)"
    by (intro ext) (simp add: max_def)
  then show ?thesis by (simp only: Max.set_eq_fold)
qed

lemma py_min_Min: "xs \<noteq> [] \<Longrightarrow> py_min xs = Inr (Min (set xs))"
  by (cases xs) (simp_all only: py_min.simps fold_min_eq, simp)

lemma py_max_Max: "xs \<noteq> [] \<Longrightarrow> py_max xs = Inr (Max (set xs))"
  by (cases xs) (simp_all only: py_max.simps fold_max_eq, simp)




lemma truediv_len: "xs \<noteq> [] \<Longrightarrow> truediv a (of_nat (length xs)) = Inr (a / of_nat (length xs))"
  by (simp add: truediv_def)

section \<open>The external reduction\<close>

lemma analyze_rss_eq:
  assumes "rss_loop f [] = vs" and "vs \<noteq> []"
  shows "analyze_rss f =
    Some \<lparr>sample_count = length vs,
          min_rss_kb = Min (set vs),
          max_rss_kb = Max (set vs),
          avg_rss_kb = of_int (sum_list vs) / of_nat (length vs),
          min_rss_mb = of_int (Min (set vs)) / 1024,
          max_rss_mb = of_int (Max (set vs)) / 1024,
          avg_rss_mb = of_int (sum_list vs) / of_nat (length vs) / 1024\<rparr>"
  using assms by (simp add: analyze_rss_def py_min_Min py_max_Max truediv_len)

lemma load_external_rss_eq:
  assumes "rss_loop f [] = vs" and "vs \<noteq> []"
  shows "load_external_rss (Some f) =
    Some \<lparr>ext_min = of_int (Min (set vs)) / 1024,
          ext_max = of_int (Max (set vs)) / 1024,
          ext_avg = of_int (sum_list vs) / of_nat (length vs) / 1024\<rparr>"
  using assms by (simp add: load_external_rss_def py_min_Min py_max_Max truediv_len)



text \<open>
  Claim C10. The external adapter does not enforce \<open>rss_kb \<ge> 0\<close>: the line \<open>ts1,x,-512\<close>,
  whose third field is a negative integer literal, is accepted as a sample, and the
  minimum and the average of the resulting summary are negative, in \<open>analyze_rss\<close> and in
  \<open>load_external_rss\<close> alike.
\<close>

theorem negative_rss_accepted:
  "analyze_rss [''ts1,x,-512''] =
     Some \<lparr>sample_count = 1, min_rss_kb = - 512, max_rss_kb = - 512, avg_rss_kb = - 512,
           min_rss_mb = - (1 / 2), max_rss_mb = - (1 / 2), avg_rss_mb = - (1 / 2)\<rparr>
   \<and> load_external_rss (Some [''ts1,x,-512'']) =
     Some \<lparr>ext_min = - (1 / 2), ext_max = - (1 / 2), ext_avg = - (1 / 2)\<rparr>
   \<and> min_rss_mb (the (analyze_rss [''ts1,x,-512''])) < 0
   \<and> avg_rss_mb (the (analyze_rss [''ts1,x,-512''])) < 0"
  by code_simp

section \<open>The external adapter, line by line\<close>

lemma rss_loop_step:
  "rss_loop (l # ls) acc =
     rss_loop ls (acc @ (if strip l \<noteq> [] \<and> \<not> startswith (strip l) ''timestamp''
         \<and> 3 \<le> length (split_comma (strip l))
         \<and> py_int (split_comma (strip l) ! 2) \<noteq> None
      then [the (py_int (split_comma (strip l) ! 2))] else []))"
  by (cases "py_int (split_comma (strip l) ! 2)") (simp_all add: Let_def)

lemma rss_loop_acc: "rss_loop ls acc = acc @ rss_loop ls []"
proof (induction ls arbitrary: acc)
  case Nil
  show ?case by simp
next
  case (Cons l ls)
  show ?case
    by (subst (1 2) rss_loop_step, subst Cons.IH, subst (2) Cons.IH) (simp only: append_assoc append_Nil)
qed

lemma rss_loop_single:
  "rss_loop [l] [] =
     (if strip l \<noteq> [] \<and> \<not> startswith (strip l) ''timestamp''
         \<and> 3 \<le> length (split_comma (strip l))
         \<and> py_int (split_comma (strip l) ! 2) \<noteq> None
      then [the (py_int (split_comma (strip l) ! 2))] else [])"
  by (simp only: rss_loop_step rss_loop.simps(1) append_Nil)

lemma rss_loop_Cons: "rss_loop (l # ls) [] = rss_loop [l] [] @ rss_loop ls []"
  by (subst rss_loop_step, subst rss_loop_acc, simp only: rss_loop_single append_Nil)

lemma rss_loop_concat: "rss_loop ls [] = concat (map (\<lambda>l. rss_loop [l] []) ls)"
proof (induction ls)
  case Nil
  show ?case by simp
next
  case (Cons l ls)
  have "rss_loop (l # ls) [] = rss_loop [l] [] @ rss_loop ls []" by (rule rss_loop_Cons)
  also have "\<dots> = rss_loop [l] [] @ concat (map (\<lambda>l. rss_loop [l] []) ls)"
    using Cons.IH by (rule arg_cong)
  finally show ?case by (simp only: list.map concat.simps)
qed

lemma rss_loop_empty_iff: "rss_loop ls [] = [] \<longleftrightarrow> (\<forall>l\<in>set ls. rss_loop [l] [] = [])"
  by (subst rss_loop_concat) (simp del: rss_loop.simps)



lemma analyze_rss_None_iff: "analyze_rss ls = None \<longleftrightarrow> rss_loop ls [] = []"
proof
  assume n: "analyze_rss ls = None"
  show "rss_loop ls [] = []"
  proof (rule ccontr)
    assume ne: "rss_loop ls [] \<noteq> []"
    from analyze_rss_eq [OF refl ne] n show False by (simp only: option.distinct)
  qed
next
  assume "rss_loop ls [] = []"
  then show "analyze_rss ls = None" unfolding analyze_rss_def Let_def by (simp only: simp_thms if_True)
qed

lemma load_external_rss_None_iff: "load_external_rss (Some ls) = None \<longleftrightarrow> rss_loop ls [] = []"
proof
  assume n: "load_external_rss (Some ls) = None"
  show "rss_loop ls [] = []"
  proof (rule ccontr)
    assume ne: "rss_loop ls [] \<noteq> []"
    from load_external_rss_eq [OF refl ne] n show False by (simp only: option.distinct)
  qed
next
  assume "rss_loop ls [] = []"
  then show "load_external_rss (Some ls) = None"
    unfolding load_external_rss_def Let_def by (simp only: simp_thms if_True option.case)
qed


text \<open>
  Claim C8, as the code has it. Every line is handled on its own: the samples of an
  artifact are the concatenation of what each line contributes, so no line stops the
  parse. A line contributes a sample exactly when, after white space is removed at both
  of its ends, it is not empty, does not start with the text \<open>timestamp\<close>, has at least
  three comma-separated fields and its third field parses as an integer; the sample is
  that integer. \<open>analyze_rss\<close> and \<open>load_external_rss\<close> return \<open>None\<close> exactly when no
  line contributes.
\<close>

theorem external_adapter_line_filter:
  "rss_loop ls [] = concat (map (\<lambda>l. rss_loop [l] []) ls)
   \<and> rss_loop [l] [] =
       (if strip l \<noteq> [] \<and> \<not> startswith (strip l) ''timestamp''
           \<and> 3 \<le> length (split_comma (strip l))
           \<and> py_int (split_comma (strip l) ! 2) \<noteq> None
        then [the (py_int (split_comma (strip l) ! 2))] else [])
   \<and> (analyze_rss ls = None \<longleftrightarrow> (\<forall>l\<in>set ls. rss_loop [l] [] = []))
   \<and> (load_external_rss (Some ls) = None \<longleftrightarrow> (\<forall>l\<in>set ls. rss_loop [l] [] = []))"
proof (intro conjI)
  show "rss_loop ls [] = concat (map (\<lambda>l. rss_loop [l] []) ls)" by (rule rss_loop_concat)
  show "rss_loop [l] [] =
       (if strip l \<noteq> [] \<and> \<not> startswith (strip l) ''timestamp''
           \<and> 3 \<le> length (split_comma (strip l))
           \<and> py_int (split_comma (strip l) ! 2) \<noteq> None
        then [the (py_int (split_comma (strip l) ! 2))] else [])" by (rule rss_loop_single)
  show "analyze_rss ls = None \<longleftrightarrow> (\<forall>l\<in>set ls. rss_loop [l] [] = [])"
    unfolding analyze_rss_None_iff by (rule rss_loop_empty_iff)
  show "load_external_rss (Some ls) = None \<longleftrightarrow> (\<forall>l\<in>set ls. rss_loop [l] [] = [])"
    unfolding load_external_rss_None_iff by (rule rss_loop_empty_iff)
qed

theorem external_adapter_line_filter_witness:
  "rss_loop [''timestamp,pid,rss'', ''ts1,x,1024 \<newline>'', ''garbage'', ''ts2,x,abc'',
             ''\<newline>'', ''ts3,x,1536''] [] = [1024, 1536]
   \<and> analyze_rss [''garbage'', ''ts2,x,abc''] = None
   \<and> load_external_rss (Some [''garbage'', ''ts2,x,abc'']) = None"
proof -
  have s1: "rss_loop [''timestamp,pid,rss''] [] = []" by code_simp
  have s2: "rss_loop [''ts1,x,1024 \<newline>''] [] = [1024]" by code_simp
  have s3: "rss_loop [''garbage''] [] = []" by code_simp
  have s4: "rss_loop [''ts2,x,abc''] [] = []" by code_simp
  have s5: "rss_loop [''\<newline>''] [] = []" by code_simp
  have s6: "rss_loop [''ts3,x,1536''] [] = [1536]" by code_simp
  have a: "rss_loop [''timestamp,pid,rss'', ''ts1,x,1024 \<newline>'', ''garbage'', ''ts2,x,abc'',
             ''\<newline>'', ''ts3,x,1536''] [] = [1024, 1536]"
    using external_adapter_line_filter
      [of "[''timestamp,pid,rss'', ''ts1,x,1024 \<newline>'', ''garbage'', ''ts2,x,abc'',
             ''\<newline>'', ''ts3,x,1536'']" "[]"]
    by (simp only: s1 s2 s3 s4 s5 s6 list.map concat.simps append.simps)
  have b: "analyze_rss [''garbage'', ''ts2,x,abc''] = None
     \<and> load_external_rss (Some [''garbage'', ''ts2,x,abc'']) = None"
    using external_adapter_line_filter [of "[''garbage'', ''ts2,x,abc'']" "[]"]
    by (simp only: s3 s4 list.set ball_simps simp_thms)
  show ?thesis using a b by (rule conjI)
qed

text \<open>
  Claim C8, as stated, fails: the header test of the code is a prefix test on the whole
  line, not a comparison of the first field. The line \<open>timestamp2,x,2048\<close> is valid in the
  words of the specification (first field \<open>timestamp2\<close>, three fields, an integer third
  field), yet the code skips it.
\<close>

theorem header_prefix_counterexample:
  "spec_valid_line ''timestamp2,x,2048''
   \<and> rss_loop [''timestamp2,x,2048''] [] = []
   \<and> analyze_rss [''timestamp2,x,2048''] = None
   \<and> load_external_rss (Some [''timestamp2,x,2048'']) = None"
  by code_simp

section \<open>The timeline analysis of one artifact\<close>

lemma bind_Inr: "bind (Inr x) f = f x"
  by (simp add: bind_def)

lemma bind_Inl: "bind (Inl e) f = Inl e"
  by (simp add: bind_def)

lemma getitem_Some: "map_of d k = Some v \<Longrightarrow> getitem d k = Inr v"
  by (simp add: getitem_def)

lemma getitem_None: "map_of d k = None \<Longrightarrow> getitem d k = Inl (KeyError k)"
  by (simp add: getitem_def)

lemma getitems_ok:
  "\<forall>s\<in>set stats. map_of s k \<noteq> None \<Longrightarrow>
     getitems k stats = Inr (map (\<lambda>s. the (map_of s k)) stats)"
proof (induction stats)
  case Nil
  show ?case by simp
next
  case (Cons s ss)
  from Cons.prems obtain v where v: "map_of s k = Some v" by auto
  from Cons have ih: "getitems k ss = Inr (map (\<lambda>s. the (map_of s k)) ss)" by simp
  show ?case by (simp add: getitem_Some [OF v] ih bind_Inr v)
qed

lemma getitems_missing:
  "s \<in> set stats \<Longrightarrow> map_of s k = None \<Longrightarrow> getitems k stats = Inl (KeyError k)"
proof (induction stats)
  case Nil
  then show ?case by simp
next
  case (Cons a ss)
  show ?case
  proof (cases "map_of a k")
    case None
    then show ?thesis by (simp add: getitem_None bind_Inl)
  next
    case (Some v)
    with Cons.prems have "s \<in> set ss" by auto
    with Cons have "getitems k ss = Inl (KeyError k)" by simp
    then show ?thesis by (simp add: getitem_Some [OF Some] bind_Inr bind_Inl)
  qed
qed


lemma analyze_file_missing:
  assumes "s \<in> set stats"
    and "map_of s ''heap_alloc'' = None \<or> map_of s ''rss'' = None"
  shows "analyze_file fp stats = Inl (KeyError ''heap_alloc'')
       \<or> analyze_file fp stats = Inl (KeyError ''rss'')"
proof -
  have ne: "stats \<noteq> []" using assms(1) by auto
  show ?thesis
  proof (cases "\<exists>t\<in>set stats. map_of t ''heap_alloc'' = None")
    case True
    then obtain t where "t \<in> set stats" "map_of t ''heap_alloc'' = None" by blast
    then have "getitems ''heap_alloc'' stats = Inl (KeyError ''heap_alloc'')"
      by (rule getitems_missing)
    then have "analyze_file fp stats = Inl (KeyError ''heap_alloc'')"
      unfolding analyze_file_def by (simp only: ne if_False bind_Inl)
    then show ?thesis by (rule disjI1)
  next
    case False
    then have ok: "\<forall>t\<in>set stats. map_of t ''heap_alloc'' \<noteq> None" by simp
    with assms have r: "map_of s ''rss'' = None" by auto
    have gh: "getitems ''heap_alloc'' stats = Inr (map (\<lambda>s. the (map_of s ''heap_alloc'')) stats)"
      using ok by (rule getitems_ok)
    have hne: "map (\<lambda>s. the (map_of s ''heap_alloc'')) stats \<noteq> []" using ne by simp
    have gr: "getitems ''rss'' stats = Inl (KeyError ''rss'')"
      using assms(1) r by (rule getitems_missing)
    have "analyze_file fp stats = Inl (KeyError ''rss'')"
      unfolding analyze_file_def
      by (simp only: ne if_False gh bind_Inr py_max_Max [OF hne] gr bind_Inl)
    then show ?thesis by (rule disjI2)
  qed
qed

lemma main_loop_append: "main_loop (fs1 @ fs2) results = main_loop fs2 (main_loop fs1 results)"
proof (induction fs1 arbitrary: results)
  case Nil
  show ?case by simp
next
  case (Cons a fs1)
  obtain f stats where a: "a = (f, stats)" by (cases a)
  show ?case
    by (cases "analyze_file f stats") (simp_all add: a Cons.IH split: option.split)
qed

lemma main_loop_skip:
  "analyze_file f stats = Inl e \<Longrightarrow>
     main_loop (before @ (f, stats) # after) results = main_loop (before @ after) results"
  by (simp add: main_loop_append)

text \<open>
  Claim C2, as the code has it. A record that lacks \<open>heap_alloc\<close> or \<open>rss\<close> is not skipped
  on its own: \<open>analyze_file\<close> raises \<open>KeyError\<close> for the whole artifact, and the loop of
  \<open>main\<close> leaves that artifact out and goes on with the other artifacts.
\<close>

theorem malformed_record_drops_artifact:
  assumes "s \<in> set stats"
    and "map_of s ''heap_alloc'' = None \<or> map_of s ''rss'' = None"
  shows "(analyze_file f stats = Inl (KeyError ''heap_alloc'')
          \<or> analyze_file f stats = Inl (KeyError ''rss''))
       \<and> main_loop (before @ (f, stats) # after) results = main_loop (before @ after) results"
proof -
  from analyze_file_missing [OF assms]
  have m: "analyze_file f stats = Inl (KeyError ''heap_alloc'')
          \<or> analyze_file f stats = Inl (KeyError ''rss'')" .
  then have "main_loop (before @ (f, stats) # after) results = main_loop (before @ after) results"
    by (elim disjE) (rule main_loop_skip, assumption)+
  with m show ?thesis by (rule conjI)
qed

theorem malformed_record_drops_artifact_witness:
  "[(''rss'', 80)] \<in> set [raw_sample 4 40 2 1 1 1 1000000, [(''rss'', 80)],
                            raw_sample 6 60 4 3 2 3 4000000]
   \<and> map_of [(''rss'', 80 :: int)] ''heap_alloc'' = None
   \<and> main_loop
        ([] @ (''results/stats_q.json'',
               [raw_sample 4 40 2 1 1 1 1000000, [(''rss'', 80)],
                raw_sample 6 60 4 3 2 3 4000000])
            # [(''results/stats_r.json'', [raw_sample 4 40 2 1 1 1 1000000])]) []
     = main_loop ([] @ [(''results/stats_r.json'', [raw_sample 4 40 2 1 1 1 1000000])]) []"
proof -
  let ?bad = "[(''rss'', 80 :: int)]"
  let ?stats = "[raw_sample 4 40 2 1 1 1 1000000, ?bad, raw_sample 6 60 4 3 2 3 4000000]"
  let ?after = "[(''results/stats_r.json'', [raw_sample 4 40 2 1 1 1 1000000])]"
  have m: "?bad \<in> set ?stats" by simp
  have n: "map_of ?bad ''heap_alloc'' = None" by simp
  then have n': "map_of ?bad ''heap_alloc'' = None \<or> map_of ?bad ''rss'' = None"
    by (rule disjI1)
  from malformed_record_drops_artifact [OF m n', of "''results/stats_q.json''" "[]" ?after "[]"]
  have "main_loop ([] @ (''results/stats_q.json'', ?stats) # ?after) []
     = main_loop ([] @ ?after) []"
    by (rule conjunct2)
  with m n show ?thesis by (intro conjI)
qed

text \<open>
  Claim C2, as stated, fails. The artifact below has two well-formed records around one
  that lacks \<open>heap_alloc\<close>. The claim has the two well-formed records analysed, as they are
  when the malformed one is absent; the code raises and \<open>main\<close> gets nothing from the
  artifact.
\<close>

theorem malformed_record_counterexample:
  "analyze_file ''results/stats_q.json''
      [raw_sample 4 40 2 1 1 1 1000000, [(''rss'', 80)], raw_sample 6 60 4 3 2 3 4000000]
     = Inl (KeyError ''heap_alloc'')
   \<and> main_loop
       [(''results/stats_q.json'',
         [raw_sample 4 40 2 1 1 1 1000000, [(''rss'', 80)], raw_sample 6 60 4 3 2 3 4000000])]
       [] = []
   \<and> main_loop
       [(''results/stats_q.json'',
         [raw_sample 4 40 2 1 1 1 1000000, raw_sample 6 60 4 3 2 3 4000000])]
       [] =
       [\<lparr>file_name = ''stats_q.json'', message_count = 3, message_bytes = 4,
          batch_count = 2, max_heap = 6, max_rss = 60, final_heap = 6, final_rss = 60,
          heap_ratio = 3 / 2, rss_ratio = 15, num_gc = 3, gc_pause_ms = 4\<rparr>]"
  by code_simp









section \<open>The ranking of the summaries\<close>

lemma fold_min_key_inv:
  fixes key :: "'a \<Rightarrow> rat"
  assumes "i < length zs"
    and "\<forall>k<length zs. key (zs ! i) \<le> key (zs ! k)"
    and "\<forall>k<i. key (zs ! i) < key (zs ! k)"
  shows "\<exists>j<length (zs @ ys).
      fold (\<lambda>y b. if key y < key b then y else b) ys (zs ! i) = (zs @ ys) ! j
      \<and> (\<forall>k<length (zs @ ys). key ((zs @ ys) ! j) \<le> key ((zs @ ys) ! k))
      \<and> (\<forall>k<j. key ((zs @ ys) ! j) < key ((zs @ ys) ! k))"
  using assms
proof (induction ys arbitrary: zs i)
  case Nil
  then show ?case by auto
next
  case (Cons y ys)
  let ?zs = "zs @ [y]"
  show ?case
  proof (cases "key y < key (zs ! i)")
    case True
    have 1: "length zs < length ?zs" by simp
    have 2: "\<forall>k<length ?zs. key (?zs ! length zs) \<le> key (?zs ! k)"
      using True Cons.prems(2) by (auto simp: nth_append less_Suc_eq intro: less_imp_le less_le_trans)
    have 3: "\<forall>k<length zs. key (?zs ! length zs) < key (?zs ! k)"
      using True Cons.prems(2) by (auto simp: nth_append intro: less_le_trans)
    from Cons.IH [OF 1 2 3] True show ?thesis by simp
  next
    case False
    have 1: "i < length ?zs" using Cons.prems(1) by simp
    have e: "?zs ! i = zs ! i" using Cons.prems(1) by (simp add: nth_append)
    have 2: "\<forall>k<length ?zs. key (?zs ! i) \<le> key (?zs ! k)"
      unfolding e using False Cons.prems(2) by (auto simp: nth_append less_Suc_eq)
    have 3: "\<forall>k<i. key (?zs ! i) < key (?zs ! k)"
      unfolding e using Cons.prems(1,3) by (auto simp: nth_append)
    from Cons.IH [OF 1 2 3] False e show ?thesis by simp
  qed
qed

lemma fold_max_key_inv:
  fixes key :: "'a \<Rightarrow> rat"
  assumes "i < length zs"
    and "\<forall>k<length zs. key (zs ! k) \<le> key (zs ! i)"
    and "\<forall>k<i. key (zs ! k) < key (zs ! i)"
  shows "\<exists>j<length (zs @ ys).
      fold (\<lambda>y b. if key y > key b then y else b) ys (zs ! i) = (zs @ ys) ! j
      \<and> (\<forall>k<length (zs @ ys). key ((zs @ ys) ! k) \<le> key ((zs @ ys) ! j))
      \<and> (\<forall>k<j. key ((zs @ ys) ! k) < key ((zs @ ys) ! j))"
  using assms
proof (induction ys arbitrary: zs i)
  case Nil
  then show ?case by auto
next
  case (Cons y ys)
  let ?zs = "zs @ [y]"
  show ?case
  proof (cases "key y > key (zs ! i)")
    case True
    have 1: "length zs < length ?zs" by simp
    have 2: "\<forall>k<length ?zs. key (?zs ! k) \<le> key (?zs ! length zs)"
      using True Cons.prems(2) by (auto simp: nth_append less_Suc_eq intro: less_imp_le le_less_trans)
    have 3: "\<forall>k<length zs. key (?zs ! k) < key (?zs ! length zs)"
      using True Cons.prems(2) by (auto simp: nth_append intro: le_less_trans)
    from Cons.IH [OF 1 2 3] True show ?thesis by simp
  next
    case False
    have 1: "i < length ?zs" using Cons.prems(1) by simp
    have e: "?zs ! i = zs ! i" using Cons.prems(1) by (simp add: nth_append)
    have 2: "\<forall>k<length ?zs. key (?zs ! k) \<le> key (?zs ! i)"
      unfolding e using False Cons.prems(2) by (auto simp: nth_append less_Suc_eq)
    have 3: "\<forall>k<i. key (?zs ! k) < key (?zs ! i)"
      unfolding e using Cons.prems(1,3) by (auto simp: nth_append)
    from Cons.IH [OF 1 2 3] False e show ?thesis by simp
  qed
qed

lemma py_min_key_first:
  fixes key :: "'a \<Rightarrow> rat"
  assumes "xs \<noteq> []"
  shows "\<exists>i<length xs. py_min_key key xs = Inr (xs ! i)
      \<and> (\<forall>k<length xs. key (xs ! i) \<le> key (xs ! k))
      \<and> (\<forall>k<i. key (xs ! i) < key (xs ! k))"
proof -
  from assms obtain x ys where xs: "xs = x # ys" by (cases xs) auto
  have "\<exists>j<length ([x] @ ys).
      fold (\<lambda>y b. if key y < key b then y else b) ys ([x] ! 0) = ([x] @ ys) ! j
      \<and> (\<forall>k<length ([x] @ ys). key (([x] @ ys) ! j) \<le> key (([x] @ ys) ! k))
      \<and> (\<forall>k<j. key (([x] @ ys) ! j) < key (([x] @ ys) ! k))"
    by (rule fold_min_key_inv) simp_all
  then show ?thesis unfolding xs by simp
qed

lemma py_max_key_first:
  fixes key :: "'a \<Rightarrow> rat"
  assumes "xs \<noteq> []"
  shows "\<exists>i<length xs. py_max_key key xs = Inr (xs ! i)
      \<and> (\<forall>k<length xs. key (xs ! k) \<le> key (xs ! i))
      \<and> (\<forall>k<i. key (xs ! k) < key (xs ! i))"
proof -
  from assms obtain x ys where xs: "xs = x # ys" by (cases xs) auto
  have "\<exists>j<length ([x] @ ys).
      fold (\<lambda>y b. if key y > key b then y else b) ys ([x] ! 0) = ([x] @ ys) ! j
      \<and> (\<forall>k<length ([x] @ ys). key (([x] @ ys) ! k) \<le> key (([x] @ ys) ! j))
      \<and> (\<forall>k<j. key (([x] @ ys) ! k) < key (([x] @ ys) ! j))"
    by (rule fold_max_key_inv) simp_all
  then show ?thesis unfolding xs by simp
qed


lemma main_ranking_eq:
  assumes "length results \<ge> 2"
    and "py_min_key heap_ratio results = Inr b"
    and "py_max_key heap_ratio results = Inr w"
  shows "main_ranking results =
     (if heap_ratio b = 0 then Inl ZeroDivisionError
      else Inr (Some (b, w, heap_ratio w / heap_ratio b)))"
proof -
  have "length results > 1" using assms(1) by simp
  then show ?thesis
    unfolding main_ranking_def
    by (simp only: if_True assms(2,3) bind_Inr) (simp add: truediv_def bind_def)
qed

text \<open>
  Claim C5. With fewer than two summaries \<open>main\<close> ranks nothing. With two or more, the
  best is a summary of least \<open>heap_ratio\<close> and the worst one of greatest \<open>heap_ratio\<close>;
  among equal ratios the one seen first in the order of the input is taken, for the best
  and for the worst alike; and the improvement factor is the worst ratio divided by the
  best ratio, a division that raises when the best ratio is zero.
\<close>

theorem ranking_first_extrema:
  "(length results \<le> 1 \<longrightarrow> main_ranking results = Inr None)
   \<and> (length results \<ge> 2 \<longrightarrow>
       (\<exists>i j. i < length results \<and> j < length results
          \<and> (\<forall>k<length results. heap_ratio (results ! i) \<le> heap_ratio (results ! k))
          \<and> (\<forall>k<i. heap_ratio (results ! i) < heap_ratio (results ! k))
          \<and> (\<forall>k<length results. heap_ratio (results ! k) \<le> heap_ratio (results ! j))
          \<and> (\<forall>k<j. heap_ratio (results ! k) < heap_ratio (results ! j))
          \<and> main_ranking results =
              (if heap_ratio (results ! i) = 0 then Inl ZeroDivisionError
               else Inr (Some (results ! i, results ! j,
                               heap_ratio (results ! j) / heap_ratio (results ! i))))))"
proof (intro conjI impI)
  assume "length results \<le> 1"
  then have "\<not> length results > 1" by simp
  then show "main_ranking results = Inr None"
    unfolding main_ranking_def by (simp only: if_False)
next
  assume two: "length results \<ge> 2"
  then have ne: "results \<noteq> []" by auto
  from py_min_key_first [OF ne, of heap_ratio] obtain i where i: "i < length results"
    and bi: "py_min_key heap_ratio results = Inr (results ! i)"
    and i1: "\<forall>k<length results. heap_ratio (results ! i) \<le> heap_ratio (results ! k)"
    and i2: "\<forall>k<i. heap_ratio (results ! i) < heap_ratio (results ! k)"
    by blast
  from py_max_key_first [OF ne, of heap_ratio] obtain j where j: "j < length results"
    and wj: "py_max_key heap_ratio results = Inr (results ! j)"
    and j1: "\<forall>k<length results. heap_ratio (results ! k) \<le> heap_ratio (results ! j)"
    and j2: "\<forall>k<j. heap_ratio (results ! k) < heap_ratio (results ! j)"
    by blast
  note r = main_ranking_eq [OF two bi wj]
  from i j i1 i2 j1 j2 r
  show "\<exists>i j. i < length results \<and> j < length results
          \<and> (\<forall>k<length results. heap_ratio (results ! i) \<le> heap_ratio (results ! k))
          \<and> (\<forall>k<i. heap_ratio (results ! i) < heap_ratio (results ! k))
          \<and> (\<forall>k<length results. heap_ratio (results ! k) \<le> heap_ratio (results ! j))
          \<and> (\<forall>k<j. heap_ratio (results ! k) < heap_ratio (results ! j))
          \<and> main_ranking results =
              (if heap_ratio (results ! i) = 0 then Inl ZeroDivisionError
               else Inr (Some (results ! i, results ! j,
                               heap_ratio (results ! j) / heap_ratio (results ! i))))"
    by blast
qed

text \<open>
  Claim C1. When at least two summaries are ranked, the improvement factor is the
  greatest \<open>heap_ratio\<close> divided by the least one; and when the least ratio is exactly
  zero the ranking raises an error (Python's \<open>ZeroDivisionError\<close>, the
  DegenerateComparison of the specification) and returns no number at all.
\<close>

theorem improvement_factor_or_error:
  assumes "length results \<ge> 2"
  shows "(Min (heap_ratio ` set results) = 0 \<longrightarrow> main_ranking results = Inl ZeroDivisionError)
       \<and> (Min (heap_ratio ` set results) \<noteq> 0 \<longrightarrow>
           (\<exists>best worst. best \<in> set results \<and> worst \<in> set results
              \<and> heap_ratio best = Min (heap_ratio ` set results)
              \<and> heap_ratio worst = Max (heap_ratio ` set results)
              \<and> main_ranking results =
                  Inr (Some (best, worst,
                             Max (heap_ratio ` set results) / Min (heap_ratio ` set results)))))"
proof -
  from assms have ne: "results \<noteq> []" by auto
  from py_min_key_first [OF ne, of heap_ratio] obtain i where i: "i < length results"
    and bi: "py_min_key heap_ratio results = Inr (results ! i)"
    and i1: "\<forall>k<length results. heap_ratio (results ! i) \<le> heap_ratio (results ! k)"
    by blast
  from py_max_key_first [OF ne, of heap_ratio] obtain j where j: "j < length results"
    and wj: "py_max_key heap_ratio results = Inr (results ! j)"
    and j1: "\<forall>k<length results. heap_ratio (results ! k) \<le> heap_ratio (results ! j)"
    by blast
  have mn: "Min (heap_ratio ` set results) = heap_ratio (results ! i)"
  proof (rule Min_eqI)
    show "finite (heap_ratio ` set results)" by simp
    show "\<And>y. y \<in> heap_ratio ` set results \<Longrightarrow> heap_ratio (results ! i) \<le> y"
      using i1 by (auto simp: in_set_conv_nth)
    show "heap_ratio (results ! i) \<in> heap_ratio ` set results" using i by simp
  qed
  have mx: "Max (heap_ratio ` set results) = heap_ratio (results ! j)"
  proof (rule Max_eqI)
    show "finite (heap_ratio ` set results)" by simp
    show "\<And>y. y \<in> heap_ratio ` set results \<Longrightarrow> y \<le> heap_ratio (results ! j)"
      using j1 by (auto simp: in_set_conv_nth)
    show "heap_ratio (results ! j) \<in> heap_ratio ` set results" using j by simp
  qed
  note r = main_ranking_eq [OF assms bi wj]
  have mi: "results ! i \<in> set results" and mj: "results ! j \<in> set results"
    using i j by simp_all
  show ?thesis
  proof (intro conjI impI)
    assume "Min (heap_ratio ` set results) = 0"
    then show "main_ranking results = Inl ZeroDivisionError"
      unfolding mn using r by simp
  next
    assume "Min (heap_ratio ` set results) \<noteq> 0"
    then have "main_ranking results =
        Inr (Some (results ! i, results ! j,
                   Max (heap_ratio ` set results) / Min (heap_ratio ` set results)))"
      unfolding mn mx using r by simp
    with mi mj mn mx
    show "\<exists>best worst. best \<in> set results \<and> worst \<in> set results
              \<and> heap_ratio best = Min (heap_ratio ` set results)
              \<and> heap_ratio worst = Max (heap_ratio ` set results)
              \<and> main_ranking results =
                  Inr (Some (best, worst,
                             Max (heap_ratio ` set results) / Min (heap_ratio ` set results)))"
      by metis
  qed
qed


theorem ranking_first_extrema_witness:
  "main_ranking [named_ratio ''A'' 2, named_ratio ''B'' (1 / 2), named_ratio ''C'' (1 / 2),
                 named_ratio ''D'' 2]
     = Inr (Some (named_ratio ''B'' (1 / 2), named_ratio ''A'' 2, 4))
   \<and> main_ranking [named_ratio ''A'' 2] = Inr None"
proof -
  let ?rs = "[named_ratio ''A'' 2, named_ratio ''B'' (1 / 2), named_ratio ''C'' (1 / 2),
              named_ratio ''D'' 2]"
  have len: "length ?rs \<ge> 2" by simp
  from ranking_first_extrema [of ?rs] len obtain i j where i: "i < length ?rs"
    and j: "j < length ?rs"
    and i1: "\<forall>k<length ?rs. heap_ratio (?rs ! i) \<le> heap_ratio (?rs ! k)"
    and i2: "\<forall>k<i. heap_ratio (?rs ! i) < heap_ratio (?rs ! k)"
    and j1: "\<forall>k<length ?rs. heap_ratio (?rs ! k) \<le> heap_ratio (?rs ! j)"
    and j2: "\<forall>k<j. heap_ratio (?rs ! k) < heap_ratio (?rs ! j)"
    and r: "main_ranking ?rs =
              (if heap_ratio (?rs ! i) = 0 then Inl ZeroDivisionError
               else Inr (Some (?rs ! i, ?rs ! j, heap_ratio (?rs ! j) / heap_ratio (?rs ! i))))"
    by blast
  have ic: "i = 0 \<or> i = 1 \<or> i = 2 \<or> i = 3" using i by (simp, arith)
  have jc: "j = 0 \<or> j = 1 \<or> j = 2 \<or> j = 3" using j by (simp, arith)
  have a: "heap_ratio (?rs ! i) \<le> heap_ratio (?rs ! 1)" using i1 [rule_format, of 1] by simp
  have b: "1 < i \<Longrightarrow> heap_ratio (?rs ! i) < heap_ratio (?rs ! 1)" using i2 [rule_format, of 1] by simp
  have i_eq: "i = 1" using ic a b by (auto simp: named_ratio_def)
  have c: "heap_ratio (?rs ! 0) \<le> heap_ratio (?rs ! j)" using j1 [rule_format, of 0] by simp
  have d: "0 < j \<Longrightarrow> heap_ratio (?rs ! 0) < heap_ratio (?rs ! j)" using j2 [rule_format, of 0] by simp
  have j_eq: "j = 0" using jc c d by (auto simp: named_ratio_def)
  have 1: "main_ranking ?rs = Inr (Some (named_ratio ''B'' (1 / 2), named_ratio ''A'' 2, 4))"
    using r unfolding i_eq j_eq by (simp add: named_ratio_def)
  have "length [named_ratio ''A'' 2] \<le> 1" by simp
  with ranking_first_extrema [of "[named_ratio ''A'' 2]"]
  have 2: "main_ranking [named_ratio ''A'' 2] = Inr None" by blast
  from 1 2 show ?thesis by (rule conjI)
qed

theorem improvement_factor_or_error_witness:
  "main_ranking [named_ratio ''A'' 0, named_ratio ''B'' 5] = Inl ZeroDivisionError
   \<and> (\<exists>best worst. main_ranking [named_ratio ''A'' 2, named_ratio ''B'' (1 / 2)]
                      = Inr (Some (best, worst, 4)))"
proof -
  have l0: "length [named_ratio ''A'' 0, named_ratio ''B'' 5] \<ge> 2" by simp
  have m0: "Min (heap_ratio ` set [named_ratio ''A'' 0, named_ratio ''B'' 5]) = 0"
    by (simp add: named_ratio_def)
  from improvement_factor_or_error [OF l0] m0
  have 1: "main_ranking [named_ratio ''A'' 0, named_ratio ''B'' 5] = Inl ZeroDivisionError"
    by blast
  have l1: "length [named_ratio ''A'' 2, named_ratio ''B'' (1 / 2)] \<ge> 2" by simp
  have m1: "Min (heap_ratio ` set [named_ratio ''A'' 2, named_ratio ''B'' (1 / 2)]) = 1 / 2"
    "Max (heap_ratio ` set [named_ratio ''A'' 2, named_ratio ''B'' (1 / 2)]) = 2"
    by (simp_all add: named_ratio_def)
  from improvement_factor_or_error [OF l1]
  have 2: "\<exists>best worst. main_ranking [named_ratio ''A'' 2, named_ratio ''B'' (1 / 2)]
                      = Inr (Some (best, worst, 4))"
    unfolding m1 by auto
  from 1 2 show ?thesis by (rule conjI)
qed


section \<open>The savings of the compare scripts\<close>






end
